theory Spec2Isabelle
  imports Complex_Main "HOL-Library.Finite_Map"
begin

section \<open>The numbers of the program\<close>

text \<open>
  The quantities, the capacity and the balance of \<^verbatim>\<open>src/warehouse.py\<close> are Python floats:
  \<^verbatim>\<open>app.py\<close> passes what \<^verbatim>\<open>float(value)\<close> returns, which may be \<^verbatim>\<open>inf\<close> or \<^verbatim>\<open>nan\<close>.
  A float is a finite value, an infinity or a NaN. The two zeros \<^verbatim>\<open>0.0\<close> and \<^verbatim>\<open>-0.0\<close>
  compare equal and the program never tells them apart, so both are \<open>Finite 0\<close>. The integer
  literals \<^verbatim>\<open>0\<close> and \<^verbatim>\<open>100\<close> of the source take part in float operations only, and are
  the floats of the same value.
\<close>

datatype pyfloat = Finite real | PInf | NInf | NaN

text \<open>
  Rounding to binary64, to the nearest value and to the even mantissa on a tie. The
  exponent of \<open>x\<close> is \<open>\<lfloor>log\<^sub>2 \<bar>x\<bar>\<rfloor>\<close>, and not below \<open>-1022\<close> (the subnormal range);
  neighbouring values are \<open>ulp x\<close> apart; a result of magnitude \<open>2\<^sup>1\<^sup>0\<^sup>2\<^sup>4\<close> or more is an
  infinity.
\<close>

definition expo :: "real \<Rightarrow> int" where
  "expo x = max (- 1022) \<lfloor>log 2 \<bar>x\<bar>\<rfloor>"

definition ulp :: "real \<Rightarrow> real" where
  "ulp x = 2 powi (expo x - 52)"

definition round_even :: "real \<Rightarrow> int" where
  "round_even y =
     (let f = \<lfloor>y\<rfloor>; d = y - of_int f
      in if d < 1 / 2 then f else if 1 / 2 < d then f + 1 else if even f then f else f + 1)"

definition rnd :: "real \<Rightarrow> pyfloat" where
  "rnd x =
     (if x = 0 then Finite 0
      else
        let r = of_int (round_even (x / ulp x)) * ulp x
        in if 2 ^ 1024 \<le> \<bar>r\<bar> then (if 0 < x then PInf else NInf) else Finite r)"

text \<open>
  The operations of the source: \<^verbatim>\<open>+\<close>, \<^verbatim>\<open>-\<close>, \<^verbatim>\<open>*\<close>, \<^verbatim>\<open>/\<close>, \<^verbatim>\<open><=\<close>, \<^verbatim>\<open>>\<close> (as
  \<open>fl_lt\<close> with the arguments swapped) and \<^verbatim>\<open>==\<close>. Every comparison with a NaN is false.
  Division by zero raises \<^verbatim>\<open>ZeroDivisionError\<close> in Python: \<open>fl_div\<close> returns \<open>None\<close> there.
\<close>

fun fl_neg :: "pyfloat \<Rightarrow> pyfloat" where
  "fl_neg (Finite a) = Finite (- a)"
| "fl_neg PInf = NInf"
| "fl_neg NInf = PInf"
| "fl_neg NaN = NaN"

fun fl_add :: "pyfloat \<Rightarrow> pyfloat \<Rightarrow> pyfloat" where
  "fl_add (Finite a) (Finite b) = rnd (a + b)"
| "fl_add NaN _ = NaN"
| "fl_add _ NaN = NaN"
| "fl_add PInf NInf = NaN"
| "fl_add NInf PInf = NaN"
| "fl_add PInf _ = PInf"
| "fl_add _ PInf = PInf"
| "fl_add NInf _ = NInf"
| "fl_add _ NInf = NInf"

definition fl_sub :: "pyfloat \<Rightarrow> pyfloat \<Rightarrow> pyfloat" where
  "fl_sub x y = fl_add x (fl_neg y)"

fun fl_mul :: "pyfloat \<Rightarrow> pyfloat \<Rightarrow> pyfloat" where
  "fl_mul (Finite a) (Finite b) = rnd (a * b)"
| "fl_mul NaN _ = NaN"
| "fl_mul _ NaN = NaN"
| "fl_mul (Finite a) PInf = (if a = 0 then NaN else if 0 < a then PInf else NInf)"
| "fl_mul (Finite a) NInf = (if a = 0 then NaN else if 0 < a then NInf else PInf)"
| "fl_mul PInf (Finite b) = (if b = 0 then NaN else if 0 < b then PInf else NInf)"
| "fl_mul NInf (Finite b) = (if b = 0 then NaN else if 0 < b then NInf else PInf)"
| "fl_mul PInf PInf = PInf"
| "fl_mul NInf NInf = PInf"
| "fl_mul PInf NInf = NInf"
| "fl_mul NInf PInf = NInf"

fun fl_quot :: "pyfloat \<Rightarrow> pyfloat \<Rightarrow> pyfloat" where
  "fl_quot (Finite a) (Finite b) = rnd (a / b)"
| "fl_quot NaN _ = NaN"
| "fl_quot _ NaN = NaN"
| "fl_quot (Finite a) PInf = Finite 0"
| "fl_quot (Finite a) NInf = Finite 0"
| "fl_quot PInf (Finite b) = (if 0 < b then PInf else NInf)"
| "fl_quot NInf (Finite b) = (if 0 < b then NInf else PInf)"
| "fl_quot PInf PInf = NaN"
| "fl_quot PInf NInf = NaN"
| "fl_quot NInf PInf = NaN"
| "fl_quot NInf NInf = NaN"

definition fl_div :: "pyfloat \<Rightarrow> pyfloat \<Rightarrow> pyfloat option" where
  "fl_div x y = (if y = Finite 0 then None else Some (fl_quot x y))"

fun fl_le :: "pyfloat \<Rightarrow> pyfloat \<Rightarrow> bool" where
  "fl_le (Finite a) (Finite b) = (a \<le> b)"
| "fl_le NaN _ = False"
| "fl_le _ NaN = False"
| "fl_le NInf _ = True"
| "fl_le _ PInf = True"
| "fl_le _ _ = False"

fun fl_lt :: "pyfloat \<Rightarrow> pyfloat \<Rightarrow> bool" where
  "fl_lt (Finite a) (Finite b) = (a < b)"
| "fl_lt NaN _ = False"
| "fl_lt _ NaN = False"
| "fl_lt NInf NInf = False"
| "fl_lt PInf PInf = False"
| "fl_lt NInf _ = True"
| "fl_lt _ PInf = True"
| "fl_lt _ _ = False"

fun fl_eq :: "pyfloat \<Rightarrow> pyfloat \<Rightarrow> bool" where
  "fl_eq (Finite a) (Finite b) = (a = b)"
| "fl_eq PInf PInf = True"
| "fl_eq NInf NInf = True"
| "fl_eq _ _ = False"

section \<open>The warehouse model of \<^verbatim>\<open>src/warehouse.py\<close>\<close>

text \<open>
  A method of the class takes the object and returns the value it returns together with
  the object afterwards. A returned tuple \<^verbatim>\<open>(True, None)\<close> is \<open>Inr ()\<close>, a returned
  tuple \<^verbatim>\<open>(False, message)\<close> is \<open>Inl kind\<close>, with \<open>message\<close> giving the text of each
  kind.
\<close>

datatype error = InvalidArgument | CapacityExceeded | InsufficientStock | NotFound

fun message :: "error \<Rightarrow> string" where
  "message InvalidArgument = ''Quantity must be positive''"
| "message CapacityExceeded = ''Not enough space in warehouse''"
| "message NotFound = ''Item not found''"
| "message InsufficientStock = ''Not enough items to remove''"

type_synonym outcome = "error + unit"

subsection \<open>The base class \<^verbatim>\<open>Varasto\<close>\<close>

record varasto =
  tilavuus :: pyfloat
  saldo :: pyfloat

definition Varasto_init :: "pyfloat \<Rightarrow> pyfloat \<Rightarrow> error + varasto" where
  \<comment> \<open>Modelled from the spec: the constructor of the base class \<^verbatim>\<open>Varasto\<close>, whose module
      \<^verbatim>\<open>varasto.py\<close> is not among the sources (the ledger's \<^verbatim>\<open>create\<close>).\<close>
  "Varasto_init capacity initial_occupied =
     (if fl_le capacity (Finite 0) \<or> fl_lt initial_occupied (Finite 0)
         \<or> fl_lt capacity initial_occupied
      then Inl InvalidArgument
      else Inr \<lparr>tilavuus = capacity, saldo = initial_occupied\<rparr>)"

definition paljonko_mahtuu :: "'a varasto_scheme \<Rightarrow> pyfloat" where
  \<comment> \<open>Modelled from the spec: \<^verbatim>\<open>Varasto.paljonko_mahtuu\<close>, not among the sources
      (the ledger's \<^verbatim>\<open>free_space\<close>).\<close>
  "paljonko_mahtuu v = fl_sub (tilavuus v) (saldo v)"

definition lisaa_varastoon :: "'a varasto_scheme \<Rightarrow> pyfloat \<Rightarrow> outcome \<times> 'a varasto_scheme" where
  \<comment> \<open>Modelled from the spec: \<^verbatim>\<open>Varasto.lisaa_varastoon\<close>, not among the sources
      (the ledger's \<^verbatim>\<open>reserve\<close>).\<close>
  "lisaa_varastoon v amount =
     (if fl_le amount (Finite 0) then (Inl InvalidArgument, v)
      else if fl_lt (paljonko_mahtuu v) amount then (Inl CapacityExceeded, v)
      else (Inr (), v\<lparr>saldo := fl_add (saldo v) amount\<rparr>))"

definition ota_varastosta :: "'a varasto_scheme \<Rightarrow> pyfloat \<Rightarrow> outcome \<times> 'a varasto_scheme" where
  \<comment> \<open>Modelled from the spec: \<^verbatim>\<open>Varasto.ota_varastosta\<close>, not among the sources
      (the ledger's \<^verbatim>\<open>release\<close>).\<close>
  "ota_varastosta v amount =
     (if fl_le amount (Finite 0) then (Inl InvalidArgument, v)
      else if fl_lt (saldo v) amount then (Inl InsufficientStock, v)
      else (Inr (), v\<lparr>saldo := fl_sub (saldo v) amount\<rparr>))"

subsection \<open>The class \<^verbatim>\<open>Warehouse\<close>\<close>

record warehouse = varasto +
  name :: string
  items :: "(string, pyfloat) fmap"

definition init :: "string \<Rightarrow> pyfloat \<Rightarrow> pyfloat \<Rightarrow> error + warehouse" where
  \<comment> \<open>\<^verbatim>\<open>Warehouse.__init__(name, tilavuus, alku_saldo=0)\<close>: the base constructor, then the
      name and an empty dict.\<close>
  "init nm tilavuus0 alku_saldo =
     (case Varasto_init tilavuus0 alku_saldo of
        Inl e \<Rightarrow> Inl e
      | Inr v \<Rightarrow> Inr \<lparr>tilavuus = tilavuus v, saldo = saldo v, name = nm, items = fmempty\<rparr>)"

definition add_item :: "warehouse \<Rightarrow> string \<Rightarrow> pyfloat \<Rightarrow> outcome \<times> warehouse" where
  \<comment> \<open>The value \<^verbatim>\<open>lisaa_varastoon\<close> returns is dropped by the source; the object it leaves
      is kept.\<close>
  "add_item w item_name quantity =
     (if fl_le quantity (Finite 0) then (Inl InvalidArgument, w)
      else if fl_lt (paljonko_mahtuu w) quantity then (Inl CapacityExceeded, w)
      else
        let w1 = snd (lisaa_varastoon w quantity) in
        (case fmlookup (items w1) item_name of
           Some cur \<Rightarrow> (Inr (), w1\<lparr>items := fmupd item_name (fl_add cur quantity) (items w1)\<rparr>)
         | None \<Rightarrow> (Inr (), w1\<lparr>items := fmupd item_name quantity (items w1)\<rparr>)))"

definition remove_item :: "warehouse \<Rightarrow> string \<Rightarrow> pyfloat option \<Rightarrow> outcome \<times> warehouse" where
  \<comment> \<open>The argument \<open>None\<close> is Python's \<^verbatim>\<open>quantity=None\<close>. The value \<^verbatim>\<open>ota_varastosta\<close>
      returns is dropped by the source.\<close>
  "remove_item w item_name quantity =
     (case fmlookup (items w) item_name of
        None \<Rightarrow> (Inl NotFound, w)
      | Some cur \<Rightarrow>
          let q = (case quantity of None \<Rightarrow> cur | Some q' \<Rightarrow> q') in
          if fl_le q (Finite 0) then (Inl InvalidArgument, w)
          else if fl_lt cur q then (Inl InsufficientStock, w)
          else
            let w1 = snd (ota_varastosta w q);
                w2 = w1\<lparr>items := fmupd item_name (fl_sub cur q) (items w1)\<rparr>
            in if fl_eq (fl_sub cur q) (Finite 0)
               then (Inr (), w2\<lparr>items := fmdrop item_name (items w2)\<rparr>)
               else (Inr (), w2))"

definition get_space_left_percent :: "warehouse \<Rightarrow> pyfloat option \<times> warehouse" where
  \<comment> \<open>The result \<open>None\<close> is a raised \<^verbatim>\<open>ZeroDivisionError\<close>.\<close>
  "get_space_left_percent w =
     (if fl_eq (tilavuus w) (Finite 0) then (Some (Finite 0), w)
      else (map_option (\<lambda>d. fl_mul d (Finite 100)) (fl_div (paljonko_mahtuu w) (tilavuus w)), w))"

subsection \<open>The invariants of the data model\<close>

text \<open>
  \<open>items_total\<close> is the sum of the stored quantities as a real number, without rounding;
  it is read together with \<open>finite_items\<close>.
\<close>

fun is_finite :: "pyfloat \<Rightarrow> bool" where
  "is_finite (Finite a) = True"
| "is_finite _ = False"

fun value_of :: "pyfloat \<Rightarrow> real" where
  "value_of (Finite a) = a"
| "value_of _ = 0"

definition items_total :: "(string, pyfloat) fmap \<Rightarrow> real" where
  \<comment> \<open>\<^verbatim>\<open>sum(items.values())\<close>, without rounding\<close>
  "items_total m = (\<Sum>k \<in> fmdom' m. value_of (the (fmlookup m k)))"

definition finite_items :: "warehouse \<Rightarrow> bool" where
  "finite_items w = (\<forall>k \<in> fmdom' (items w). is_finite (the (fmlookup (items w) k)))"

definition positive_items :: "warehouse \<Rightarrow> bool" where
  "positive_items w = (\<forall>k \<in> fmdom' (items w). fl_lt (Finite 0) (the (fmlookup (items w) k)))"

definition within_capacity :: "warehouse \<Rightarrow> bool" where
  "within_capacity w = (fl_le (Finite 0) (saldo w) \<and> fl_le (saldo w) (tilavuus w))"

subsection \<open>Calls whose arithmetic is exact\<close>

text \<open>
  A float addition or subtraction is exact when both operands are finite and the result
  is not rounded. \<open>exact_add_item\<close> and \<open>exact_remove_item\<close> say so of every addition
  and subtraction a successful call performs: the free space, the new balance and the new
  quantity of the item.
\<close>

definition is_double :: "real \<Rightarrow> bool" where
  "is_double a = (rnd a = Finite a)"

fun adds_exactly :: "pyfloat \<Rightarrow> pyfloat \<Rightarrow> bool" where
  "adds_exactly (Finite a) (Finite b) = is_double (a + b)"
| "adds_exactly _ _ = False"

fun subs_exactly :: "pyfloat \<Rightarrow> pyfloat \<Rightarrow> bool" where
  "subs_exactly (Finite a) (Finite b) = is_double (a - b)"
| "subs_exactly _ _ = False"

definition exact_add_item :: "warehouse \<Rightarrow> string \<Rightarrow> pyfloat \<Rightarrow> bool" where
  "exact_add_item w item_name quantity =
     (subs_exactly (tilavuus w) (saldo w) \<and> adds_exactly (saldo w) quantity
      \<and> (case fmlookup (items w) item_name of
            None \<Rightarrow> True
          | Some cur \<Rightarrow> adds_exactly cur quantity))"

definition exact_remove_item :: "warehouse \<Rightarrow> string \<Rightarrow> pyfloat option \<Rightarrow> bool" where
  "exact_remove_item w item_name quantity =
     (case fmlookup (items w) item_name of
        None \<Rightarrow> True
      | Some cur \<Rightarrow>
          let q = (case quantity of None \<Rightarrow> cur | Some q' \<Rightarrow> q')
          in subs_exactly (saldo w) q \<and> subs_exactly cur q)"

text \<open>
  A warehouse constructed with a start balance \<open>a\<close> holds \<open>a\<close> units that no item
  accounts for; with \<open>a = 0\<close> the items add up to \<open>saldo\<close>.
\<close>

definition accounted :: "real \<Rightarrow> warehouse \<Rightarrow> bool" where
  "accounted a w =
     (0 \<le> a \<and> is_finite (saldo w) \<and> finite_items w
      \<and> items_total (items w) = value_of (saldo w) - a
      \<and> positive_items w \<and> within_capacity w)"

text \<open>
  The states a warehouse goes through: \<open>reachable_from w0 w\<close> holds when \<open>w\<close> is \<open>w0\<close>
  after some calls of \<^verbatim>\<open>add_item\<close> and \<^verbatim>\<open>remove_item\<close>, whatever they return;
  \<open>exact_run w0 w\<close> when, in addition, every call either fails or is exact.
\<close>

inductive reachable_from :: "warehouse \<Rightarrow> warehouse \<Rightarrow> bool" for w0 where
  start: "reachable_from w0 w0"
| after_add: "reachable_from w0 w \<Longrightarrow> reachable_from w0 (snd (add_item w item_name quantity))"
| after_remove: "reachable_from w0 w \<Longrightarrow> reachable_from w0 (snd (remove_item w item_name quantity))"

inductive exact_run :: "warehouse \<Rightarrow> warehouse \<Rightarrow> bool" for w0 where
  exact_start: "exact_run w0 w0"
| exact_after_add:
    "exact_run w0 w \<Longrightarrow>
     isl (fst (add_item w item_name quantity)) \<or> exact_add_item w item_name quantity \<Longrightarrow>
     exact_run w0 (snd (add_item w item_name quantity))"
| exact_after_remove:
    "exact_run w0 w \<Longrightarrow>
     isl (fst (remove_item w item_name quantity)) \<or> exact_remove_item w item_name quantity \<Longrightarrow>
     exact_run w0 (snd (remove_item w item_name quantity))"

subsection \<open>Example states\<close>

text \<open>
  \<open>9007199254740992\<close> is \<open>2\<^sup>5\<^sup>3\<close>, \<open>18014398509481984\<close> is \<open>2\<^sup>5\<^sup>4\<close>, and
  \<open>13510798882111490\<close> is \<open>3 \<cdot> 2\<^sup>5\<^sup>2 + 2\<close>; all three are floats.
\<close>

definition empty_hall :: warehouse where
  \<comment> \<open>\<^verbatim>\<open>Warehouse("hall", 100)\<close>\<close>
  "empty_hall = \<lparr>tilavuus = Finite 100, saldo = Finite 0, name = ''hall'', items = fmempty\<rparr>"

definition bolt_hall :: warehouse where
  \<comment> \<open>after \<^verbatim>\<open>add_item("bolt", 30)\<close>\<close>
  "bolt_hall =
     \<lparr>tilavuus = Finite 100, saldo = Finite 30, name = ''hall'',
      items = fmupd ''bolt'' (Finite 30) fmempty\<rparr>"

definition full_hall :: warehouse where
  \<comment> \<open>after \<^verbatim>\<open>add_item("bolt", 100)\<close>\<close>
  "full_hall =
     \<lparr>tilavuus = Finite 100, saldo = Finite 100, name = ''hall'',
      items = fmupd ''bolt'' (Finite 100) fmempty\<rparr>"

definition prefilled_hall :: warehouse where
  \<comment> \<open>\<^verbatim>\<open>Warehouse("hall", 100, 30)\<close>\<close>
  "prefilled_hall = \<lparr>tilavuus = Finite 100, saldo = Finite 30, name = ''hall'', items = fmempty\<rparr>"

definition nan_hall :: warehouse where
  \<comment> \<open>after \<^verbatim>\<open>add_item("bolt", nan)\<close>\<close>
  "nan_hall =
     \<lparr>tilavuus = Finite 100, saldo = NaN, name = ''hall'', items = fmupd ''bolt'' NaN fmempty\<rparr>"

definition boundless_hall :: warehouse where
  \<comment> \<open>\<^verbatim>\<open>Warehouse("hall", inf)\<close>\<close>
  "boundless_hall = \<lparr>tilavuus = PInf, saldo = Finite 0, name = ''hall'', items = fmempty\<rparr>"

definition inf_hall :: warehouse where
  \<comment> \<open>after \<^verbatim>\<open>add_item("bolt", inf)\<close>\<close>
  "inf_hall =
     \<lparr>tilavuus = PInf, saldo = PInf, name = ''hall'', items = fmupd ''bolt'' PInf fmempty\<rparr>"

definition vast_hall :: warehouse where
  \<comment> \<open>\<^verbatim>\<open>Warehouse("hall", 2.0 ** 54)\<close>\<close>
  "vast_hall =
     \<lparr>tilavuus = Finite 18014398509481984, saldo = Finite 0, name = ''hall'', items = fmempty\<rparr>"

definition big_hall :: warehouse where
  \<comment> \<open>after \<^verbatim>\<open>add_item("bolt", 2.0 ** 53)\<close>\<close>
  "big_hall =
     \<lparr>tilavuus = Finite 18014398509481984, saldo = Finite 9007199254740992, name = ''hall'',
      items = fmupd ''bolt'' (Finite 9007199254740992) fmempty\<rparr>"

definition drift_hall :: warehouse where
  \<comment> \<open>after \<^verbatim>\<open>add_item("nail", 1.0)\<close> and \<^verbatim>\<open>remove_item("bolt")\<close>\<close>
  "drift_hall =
     \<lparr>tilavuus = Finite 18014398509481984, saldo = Finite 0, name = ''hall'',
      items = fmupd ''nail'' (Finite 1) fmempty\<rparr>"

definition odd_hall :: warehouse where
  \<comment> \<open>\<^verbatim>\<open>Warehouse("hall", 13510798882111490.0)\<close> after \<^verbatim>\<open>add_item("bolt", 3.0)\<close>\<close>
  "odd_hall =
     \<lparr>tilavuus = Finite 13510798882111490, saldo = Finite 3, name = ''hall'',
      items = fmupd ''bolt'' (Finite 3) fmempty\<rparr>"

definition overfull_hall :: warehouse where
  \<comment> \<open>after \<^verbatim>\<open>add_item("nail", 13510798882111488.0)\<close>, the free space\<close>
  "overfull_hall =
     \<lparr>tilavuus = Finite 13510798882111490, saldo = Finite 13510798882111492, name = ''hall'',
      items = fmupd ''nail'' (Finite 13510798882111488) (fmupd ''bolt'' (Finite 3) fmempty)\<rparr>"

section \<open>Rounding\<close>

lemma round_even_of_int: "round_even (of_int m) = m"
  by (simp add: round_even_def)

lemma two_powr_int: "(2::real) powr real_of_int k = 2 powi k"
  by (simp add: powr_real_of_int')

lemma floor_log2_bounds:
  assumes "x \<noteq> 0"
  shows "2 powi \<lfloor>log 2 \<bar>x\<bar>\<rfloor> \<le> \<bar>x\<bar>" and "\<bar>x\<bar> < 2 powi (\<lfloor>log 2 \<bar>x\<bar>\<rfloor> + 1)"
proof -
  have pos: "0 < \<bar>x\<bar>" using assms by simp
  have "2 powi \<lfloor>log 2 \<bar>x\<bar>\<rfloor> \<le> \<bar>x\<bar> \<and> \<bar>x\<bar> < 2 powi (\<lfloor>log 2 \<bar>x\<bar>\<rfloor> + 1)"
    using floor_log_eq_powr_iff [OF pos, of 2 "\<lfloor>log 2 \<bar>x\<bar>\<rfloor>", unfolded two_powr_int] by simp
  then show "2 powi \<lfloor>log 2 \<bar>x\<bar>\<rfloor> \<le> \<bar>x\<bar>" and "\<bar>x\<bar> < 2 powi (\<lfloor>log 2 \<bar>x\<bar>\<rfloor> + 1)"
    by simp_all
qed

lemma expo_eqI:
  assumes "2 powi e \<le> \<bar>x\<bar>" and "\<bar>x\<bar> < 2 powi (e + 1)" and "- 1022 \<le> e"
  shows "expo x = e"
proof -
  have "(0::real) < 2 powi e" by simp
  then have pos: "0 < \<bar>x\<bar>" using assms(1) by linarith
  have "\<lfloor>log 2 \<bar>x\<bar>\<rfloor> = e"
    using floor_log_eq_powr_iff [OF pos, of 2 e, unfolded two_powr_int] assms(1,2) by simp
  then show ?thesis using assms(3) by (simp add: expo_def)
qed

lemma ulp_pos: "0 < ulp x"
  by (simp add: ulp_def)

lemma rnd_exact:
  assumes "x / ulp x = of_int m" and "\<bar>x\<bar> < 2 ^ 1024"
  shows "rnd x = Finite x"
proof (cases "x = 0")
  case True
  then show ?thesis by (simp add: rnd_def)
next
  case False
  have "round_even (x / ulp x) = m"
    by (simp add: assms(1) round_even_of_int)
  moreover have "x = of_int m * ulp x"
    using assms(1) ulp_pos [of x] by (simp add: field_simps)
  ultimately have "of_int (round_even (x / ulp x)) * ulp x = x" by simp
  then show ?thesis using False assms(2) by (simp add: rnd_def Let_def)
qed

lemma rnd_whole:
  assumes "x \<in> \<int>" and "\<bar>x\<bar> \<le> 2 ^ 53"
  shows "rnd x = Finite x"
proof (cases "x = 0")
  case True
  then show ?thesis by (simp add: rnd_def)
next
  case False
  obtain n :: int where n: "x = of_int n" using assms(1) by (auto elim: Ints_cases)
  define e where "e = \<lfloor>log 2 \<bar>x\<bar>\<rfloor>"
  have lo: "2 powi e \<le> \<bar>x\<bar>" and hi: "\<bar>x\<bar> < 2 powi (e + 1)"
    using floor_log2_bounds [OF False] by (simp_all add: e_def)
  have one: "1 \<le> \<bar>x\<bar>" using False n by (simp flip: of_int_abs add: n)
  have e0: "0 \<le> e"
  proof (rule ccontr)
    assume "\<not> 0 \<le> e"
    then have "e + 1 \<le> 0" by simp
    then have "(2::real) powi (e + 1) \<le> 2 powi 0"
      by (intro power_int_increasing) simp_all
    then show False using hi one by simp
  qed
  have e53: "e \<le> 53"
  proof (rule ccontr)
    assume "\<not> e \<le> 53"
    then have "54 \<le> e" by simp
    then have "(2::real) powi 54 \<le> 2 powi e"
      by (intro power_int_increasing) simp_all
    then show False using lo assms(2) by simp
  qed
  have ex: "expo x = e" using e0 by (simp add: expo_def e_def)
  have "\<exists>m. x / ulp x = of_int m"
  proof (cases "e \<le> 52")
    case True
    then have "ulp x = 1 / 2 ^ nat (52 - e)"
      by (simp add: ulp_def ex power_int_def field_simps)
    then have "x / ulp x = of_int (n * 2 ^ nat (52 - e))" by (simp add: n)
    then show ?thesis by blast
  next
    case False
    then have e: "e = 53" using e53 by simp
    then have "2 ^ 53 \<le> \<bar>x\<bar>" using lo by simp
    then have ax: "\<bar>x\<bar> = 2 ^ 53" using assms(2) by simp
    have u: "ulp x = 2" by (simp add: ulp_def ex e)
    have "x / ulp x = of_int (if 0 \<le> x then 2 ^ 52 else - (2 ^ 52))"
      using ax by (simp add: u abs_if split: if_splits)
    then show ?thesis by blast
  qed
  then obtain m where "x / ulp x = of_int m" ..
  moreover have "\<bar>x\<bar> < 2 ^ 1024" using assms(2) by simp
  ultimately show ?thesis by (rule rnd_exact)
qed

lemma rnd_eval:
  assumes "2 powi e \<le> \<bar>x\<bar>" and "\<bar>x\<bar> < 2 powi (e + 1)" and "- 1022 \<le> e"
  shows "rnd x =
    (let r = of_int (round_even (x / 2 powi (e - 52))) * 2 powi (e - 52)
     in if 2 ^ 1024 \<le> \<bar>r\<bar> then (if 0 < x then PInf else NInf) else Finite r)"
proof -
  have "(0::real) < 2 powi e" by simp
  then have "0 < \<bar>x\<bar>" using assms(1) by linarith
  then have "x \<noteq> 0" by simp
  then show ?thesis by (simp add: rnd_def ulp_def expo_eqI [OF assms])
qed

lemma rnd_0: "rnd 0 = Finite 0"
  by (simp add: rnd_def)

lemma rnd_9007199254740993: "rnd 9007199254740993 = Finite 9007199254740992"
  by (subst rnd_eval [where e = 53]) (simp_all add: round_even_def Let_def)

lemma rnd_13510798882111487: "rnd 13510798882111487 = Finite 13510798882111488"
  by (subst rnd_eval [where e = 53]) (simp_all add: round_even_def Let_def)

lemma rnd_13510798882111491: "rnd 13510798882111491 = Finite 13510798882111492"
  by (subst rnd_eval [where e = 53]) (simp_all add: round_even_def Let_def)

lemma rnd_18014398509481984: "rnd 18014398509481984 = Finite 18014398509481984"
  by (subst rnd_eval [where e = 54]) (simp_all add: round_even_def Let_def)

lemma rnd_13510798882111490: "rnd 13510798882111490 = Finite 13510798882111490"
  by (subst rnd_eval [where e = 53]) (simp_all add: round_even_def Let_def)

section \<open>Comparisons, and the two operations branch by branch\<close>

lemma fl_lt_irrefl: "\<not> fl_lt x x"
  by (cases x) simp_all

lemma fl_le_not_lt: "fl_le x y \<Longrightarrow> \<not> fl_lt y x"
  by (cases x; cases y) simp_all

lemma fl_lt_not_le: "fl_lt x y \<Longrightarrow> \<not> fl_le y x"
  by (cases x; cases y) simp_all

lemma fl_sub_Finite: "fl_sub (Finite a) (Finite b) = rnd (a - b)"
  by (simp add: fl_sub_def)

lemma fmupd_same: "fmlookup m k = Some v \<Longrightarrow> fmupd k v m = m"
  by (rule fmap_ext) auto

lemma add_item_ok:
  assumes "\<not> fl_le q (Finite 0)" and "\<not> fl_lt (paljonko_mahtuu w) q"
  shows "add_item w n q =
    (Inr (), w\<lparr>saldo := fl_add (saldo w) q,
               items := fmupd n (case fmlookup (items w) n of None \<Rightarrow> q | Some c \<Rightarrow> fl_add c q)
                         (items w)\<rparr>)"
  using assms by (simp add: add_item_def lisaa_varastoon_def paljonko_mahtuu_def split: option.splits)

lemma add_item_rejected:
  assumes "fl_le q (Finite 0) \<or> fl_lt (paljonko_mahtuu w) q"
  shows "add_item w n q =
    (Inl (if fl_le q (Finite 0) then InvalidArgument else CapacityExceeded), w)"
  using assms by (auto simp: add_item_def)

lemma remove_item_ok:
  assumes "fmlookup (items w) n = Some cur" and "\<not> fl_le q (Finite 0)" and "\<not> fl_lt cur q"
  shows "remove_item w n (Some q) =
    (Inr (), w\<lparr>saldo := (if fl_lt (saldo w) q then saldo w else fl_sub (saldo w) q),
               items := (if fl_eq (fl_sub cur q) (Finite 0) then fmdrop n (items w)
                         else fmupd n (fl_sub cur q) (items w))\<rparr>)"
  using assms by (simp add: remove_item_def ota_varastosta_def Let_def fmdrop_fmupd_same)

lemma remove_item_all:
  assumes "fmlookup (items w) n = Some cur"
  shows "remove_item w n None = remove_item w n (Some cur)"
  using assms by (simp add: remove_item_def)

lemma remove_item_rejected:
  assumes "isl (fst (remove_item w n oq))"
  shows "snd (remove_item w n oq) = w"
  using assms by (auto simp: remove_item_def Let_def split: option.splits if_splits)

lemma positive_itemsD:
  assumes "positive_items w" and "fmlookup (items w) n = Some cur"
  shows "fl_lt (Finite 0) cur"
proof -
  have "n \<in> fmdom' (items w)" using assms(2) by (simp add: fmdom'I)
  then have "fl_lt (Finite 0) (the (fmlookup (items w) n))"
    using assms(1) by (simp add: positive_items_def)
  then show ?thesis using assms(2) by simp
qed

section \<open>The example states, call by call\<close>

lemmas hall_defs =
  empty_hall_def bolt_hall_def full_hall_def prefilled_hall_def nan_hall_def boundless_hall_def
  inf_hall_def vast_hall_def big_hall_def drift_hall_def odd_hall_def overfull_hall_def

lemmas call_defs =
  init_def Varasto_init_def add_item_def remove_item_def lisaa_varastoon_def ota_varastosta_def
  paljonko_mahtuu_def fl_sub_Finite fl_sub_def rnd_whole rnd_0 Let_def

lemma trace_1: "init ''hall'' (Finite 100) (Finite 0) = Inr empty_hall"
  by (simp add: call_defs hall_defs)
lemma trace_2: "add_item empty_hall ''bolt'' (Finite 30) = (Inr (), bolt_hall)"
  by (simp add: call_defs hall_defs)
lemma trace_3: "add_item empty_hall ''bolt'' (Finite 100) = (Inr (), full_hall)"
  by (simp add: call_defs hall_defs)
lemma trace_4: "add_item empty_hall ''bolt'' NaN = (Inr (), nan_hall)"
  by (simp add: call_defs hall_defs)
lemma trace_5: "init ''hall'' PInf (Finite 0) = Inr boundless_hall"
  by (simp add: call_defs hall_defs)
lemma trace_6: "add_item boundless_hall ''bolt'' PInf = (Inr (), inf_hall)"
  by (simp add: call_defs hall_defs)
lemma trace_7: "remove_item inf_hall ''bolt'' (Some PInf) =
    (Inr (), inf_hall\<lparr>saldo := NaN, items := fmupd ''bolt'' NaN fmempty\<rparr>)"
  by (simp add: call_defs hall_defs)
lemma trace_8: "init ''hall'' (Finite 18014398509481984) (Finite 0) = Inr vast_hall"
  by (simp add: call_defs hall_defs)
lemma trace_9: "add_item vast_hall ''bolt'' (Finite 9007199254740992) = (Inr (), big_hall)"
  by (simp add: call_defs hall_defs rnd_18014398509481984)
lemma trace_10: "add_item big_hall ''bolt'' (Finite 1) = (Inr (), big_hall)"
  by (simp add: call_defs hall_defs rnd_9007199254740993)
lemma trace_11: "remove_item big_hall ''bolt'' (Some (Finite 1)) =
    (Inr (), big_hall\<lparr>saldo := Finite 9007199254740991,
                       items := fmupd ''bolt'' (Finite 9007199254740991) fmempty\<rparr>)"
  by (simp add: call_defs hall_defs)
lemma trace_12: "add_item big_hall ''nail'' (Finite 1) =
    (Inr (), big_hall\<lparr>items := fmupd ''nail'' (Finite 1) (items big_hall)\<rparr>)"
  by (simp add: call_defs hall_defs rnd_9007199254740993)
lemma trace_13: "remove_item (big_hall\<lparr>items := fmupd ''nail'' (Finite 1) (items big_hall)\<rparr>) ''bolt'' None
    = (Inr (), drift_hall)"
  by (simp add: call_defs hall_defs fmdrop_fmupd)
lemma trace_14: "remove_item drift_hall ''nail'' None = (Inr (), drift_hall\<lparr>items := fmempty\<rparr>)"
  by (simp add: call_defs hall_defs fmdrop_fmupd_same)
lemma trace_15: "init ''hall'' (Finite 13510798882111490) (Finite 0) =
    Inr (odd_hall\<lparr>saldo := Finite 0, items := fmempty\<rparr>)"
  by (simp add: call_defs hall_defs)
lemma trace_16: "add_item (odd_hall\<lparr>saldo := Finite 0, items := fmempty\<rparr>) ''bolt'' (Finite 3) = (Inr (), odd_hall)"
  by (simp add: call_defs hall_defs rnd_13510798882111490)
lemma trace_17: "paljonko_mahtuu odd_hall = Finite 13510798882111488"
  by (simp add: paljonko_mahtuu_def fl_sub_Finite hall_defs rnd_13510798882111487)
lemma trace_18: "add_item odd_hall ''nail'' (Finite 13510798882111488) = (Inr (), overfull_hall)"
  by (simp add: add_item_def lisaa_varastoon_def trace_17 Let_def)
    (simp add: hall_defs rnd_13510798882111491)
lemma trace_19: "paljonko_mahtuu overfull_hall = Finite (- 2)"
  by (simp add: paljonko_mahtuu_def fl_sub_Finite hall_defs rnd_whole)

section \<open>Sums over the dict and the invariant\<close>

lemma total_fmupd:
  "items_total (fmupd k v m) =
     items_total m - (case fmlookup m k of None \<Rightarrow> 0 | Some u \<Rightarrow> value_of u) + value_of v"
proof (cases "fmlookup m k")
  case None
  then have nk: "k \<notin> fmdom' m" by (simp add: fmdom'_notI)
  have "items_total (fmupd k v m)
        = value_of v + (\<Sum>j \<in> fmdom' m. value_of (the (fmlookup (fmupd k v m) j)))"
    using nk by (simp add: items_total_def)
  also have "(\<Sum>j \<in> fmdom' m. value_of (the (fmlookup (fmupd k v m) j)))
             = (\<Sum>j \<in> fmdom' m. value_of (the (fmlookup m j)))"
    using nk by (intro sum.cong) auto
  finally show ?thesis using None by (simp add: items_total_def)
next
  case (Some u)
  then have ik: "k \<in> fmdom' m" by (simp add: fmdom'I)
  then have ins: "insert k (fmdom' m) = fmdom' m" by auto
  have "items_total (fmupd k v m)
        = (\<Sum>j \<in> fmdom' m. value_of (the (fmlookup (fmupd k v m) j)))"
    by (simp add: items_total_def ins)
  also have "\<dots> = value_of v
                   + (\<Sum>j \<in> fmdom' m - {k}. value_of (the (fmlookup (fmupd k v m) j)))"
    using ik by (simp add: sum.remove)
  also have "(\<Sum>j \<in> fmdom' m - {k}. value_of (the (fmlookup (fmupd k v m) j)))
             = (\<Sum>j \<in> fmdom' m - {k}. value_of (the (fmlookup m j)))"
    by (intro sum.cong) auto
  also have "items_total m = value_of u + (\<Sum>j \<in> fmdom' m - {k}. value_of (the (fmlookup m j)))"
    using ik Some by (simp add: items_total_def sum.remove)
  ultimately show ?thesis using Some by simp
qed

lemma total_fmdrop:
  "items_total (fmdrop k m) =
     items_total m - (case fmlookup m k of None \<Rightarrow> 0 | Some u \<Rightarrow> value_of u)"
proof (cases "fmlookup m k")
  case None
  then have "fmdrop k m = m" by (simp add: fmdrop_idle' fmdom'_notI)
  then show ?thesis using None by simp
next
  case (Some u)
  then have ik: "k \<in> fmdom' m" by (simp add: fmdom'I)
  have "items_total (fmdrop k m) = (\<Sum>j \<in> fmdom' m - {k}. value_of (the (fmlookup m j)))"
    unfolding items_total_def by (rule sum.cong) auto
  moreover have "items_total m
                 = value_of u + (\<Sum>j \<in> fmdom' m - {k}. value_of (the (fmlookup m j)))"
    using ik Some by (simp add: items_total_def sum.remove)
  ultimately show ?thesis using Some by simp
qed

lemma positive_value: "fl_lt (Finite 0) v \<Longrightarrow> 0 \<le> value_of v"
  by (cases v) simp_all

lemma member_le_items_total:
  assumes "positive_items w" and "fmlookup (items w) n = Some cur"
  shows "value_of cur \<le> items_total (items w)"
proof -
  have "n \<in> fmdom' (items w)" using assms(2) by (simp add: fmdom'I)
  moreover have "\<forall>k \<in> fmdom' (items w). 0 \<le> value_of (the (fmlookup (items w) k))"
    using assms(1) by (auto simp: positive_items_def intro: positive_value)
  ultimately have "value_of (the (fmlookup (items w) n))
                   \<le> (\<Sum>k \<in> fmdom' (items w). value_of (the (fmlookup (items w) k)))"
    by (intro member_le_sum) auto
  then show ?thesis using assms(2) by (simp add: items_total_def)
qed

lemma adds_exactlyE:
  assumes "adds_exactly x y"
  obtains a b where "x = Finite a" and "y = Finite b" and "fl_add x y = Finite (a + b)"
  using assms by (cases x; cases y) (simp_all add: is_double_def)

lemma subs_exactlyE:
  assumes "subs_exactly x y"
  obtains a b where "x = Finite a" and "y = Finite b" and "fl_sub x y = Finite (a - b)"
  using assms by (cases x; cases y) (simp_all add: is_double_def fl_sub_Finite)

lemma accounted_add_item:
  assumes "accounted a w"
    and "isl (fst (add_item w n q)) \<or> exact_add_item w n q"
  shows "accounted a (snd (add_item w n q))"
proof (cases "fl_le q (Finite 0) \<or> fl_lt (paljonko_mahtuu w) q")
  case True
  then show ?thesis using assms(1) by (simp add: add_item_rejected)
next
  case False
  then have ok: "\<not> fl_le q (Finite 0)" "\<not> fl_lt (paljonko_mahtuu w) q" by auto
  then have "\<not> isl (fst (add_item w n q))" by (simp add: add_item_ok)
  then have ex: "exact_add_item w n q" using assms(2) by simp
  then have "subs_exactly (tilavuus w) (saldo w)" and "adds_exactly (saldo w) q"
    by (simp_all add: exact_add_item_def)
  then obtain t s qr where t: "tilavuus w = Finite t" and s: "saldo w = Finite s"
    and free: "paljonko_mahtuu w = Finite (t - s)"
    and q: "q = Finite qr" and sq: "fl_add (saldo w) q = Finite (s + qr)"
    unfolding paljonko_mahtuu_def
    by (elim subs_exactlyE adds_exactlyE) auto
  have qr: "0 < qr" "qr \<le> t - s" using ok by (simp_all add: q free)
  have inv: "0 \<le> a" "finite_items w" "items_total (items w) = s - a" "positive_items w"
    "0 \<le> s" "s \<le> t"
    using assms(1) by (simp_all add: accounted_def within_capacity_def s t)
  show ?thesis
  proof (cases "fmlookup (items w) n")
    case None
    have res: "snd (add_item w n q)
               = w\<lparr>saldo := Finite (s + qr), items := fmupd n q (items w)\<rparr>"
      by (simp only: add_item_ok [OF ok] sq snd_conv None option.case)
    show ?thesis
      unfolding res using inv qr None
      by (auto simp: q accounted_def total_fmupd finite_items_def positive_items_def
          within_capacity_def t)
  next
    case (Some cur)
    then have "adds_exactly cur q" using ex by (simp add: exact_add_item_def)
    then obtain c where c: "cur = Finite c" and cq: "fl_add cur q = Finite (c + qr)"
      by (elim adds_exactlyE) (auto simp: q)
    have "fl_lt (Finite 0) cur" using inv(4) Some by (rule positive_itemsD)
    then have pos: "0 < c" by (simp add: c)
    have res: "snd (add_item w n q)
               = w\<lparr>saldo := Finite (s + qr), items := fmupd n (Finite (c + qr)) (items w)\<rparr>"
      by (simp only: add_item_ok [OF ok] sq snd_conv Some option.case cq)
    show ?thesis
      unfolding res using inv qr Some pos
      by (auto simp: accounted_def total_fmupd finite_items_def positive_items_def
          within_capacity_def t c)
  qed
qed

lemma accounted_remove_item:
  assumes "accounted a w"
    and "isl (fst (remove_item w n oq)) \<or> exact_remove_item w n oq"
  shows "accounted a (snd (remove_item w n oq))"
proof (cases "isl (fst (remove_item w n oq))")
  case True
  then show ?thesis using assms(1) by (simp add: remove_item_rejected)
next
  case False
  then have ex: "exact_remove_item w n oq" using assms(2) by simp
  from False obtain cur where cur: "fmlookup (items w) n = Some cur"
    by (auto simp: remove_item_def split: option.splits)
  define q where "q = (case oq of None \<Rightarrow> cur | Some q' \<Rightarrow> q')"
  have same: "remove_item w n oq = remove_item w n (Some q)"
    using cur by (simp add: remove_item_def q_def split: option.splits)
  have ok: "\<not> fl_le q (Finite 0)" "\<not> fl_lt cur q"
    using False cur unfolding same by (auto simp: remove_item_def Let_def split: if_splits)
  have "subs_exactly (saldo w) q" and "subs_exactly cur q"
    using ex cur by (simp_all add: exact_remove_item_def q_def Let_def)
  then obtain s qr c where s: "saldo w = Finite s" and q: "q = Finite qr"
    and sq: "fl_sub (saldo w) q = Finite (s - qr)"
    and c: "cur = Finite c" and cq: "fl_sub cur q = Finite (c - qr)"
    by (elim subs_exactlyE) auto
  have qr: "0 < qr" "qr \<le> c" using ok by (simp_all add: q c)
  have inv: "0 \<le> a" "finite_items w" "items_total (items w) = s - a" "positive_items w"
    "0 \<le> s" "fl_le (Finite s) (tilavuus w)"
    using assms(1) by (simp_all add: accounted_def within_capacity_def s)
  have "c \<le> items_total (items w)"
    using member_le_items_total [OF inv(4) cur] by (simp add: c)
  then have le: "qr \<le> s" using qr inv(1,3) by simp
  have til: "fl_le (Finite (s - qr)) (tilavuus w)"
    using inv(6) qr by (cases "tilavuus w") simp_all
  have nlt: "\<not> fl_lt (saldo w) q" using le by (simp add: s q)
  have z: "fl_eq (Finite (c - qr)) (Finite 0) = (c = qr)" by auto
  have res: "snd (remove_item w n oq)
             = w\<lparr>saldo := Finite (s - qr),
                 items := (if c = qr then fmdrop n (items w)
                           else fmupd n (Finite (c - qr)) (items w))\<rparr>"
    unfolding same remove_item_ok [OF cur ok]
    by (simp only: nlt sq cq z if_False snd_conv)
  show ?thesis
    unfolding res using inv qr le til cur
    by (auto simp: c accounted_def total_fmupd total_fmdrop finite_items_def
        positive_items_def within_capacity_def)
qed

lemma exact_run_accounted:
  assumes "exact_run w0 w" and "accounted a w0"
  shows "accounted a w"
  using assms
  by (induction rule: exact_run.induct) (simp_all add: accounted_add_item accounted_remove_item)

lemma init_accounted:
  assumes "init nm cap (Finite a) = Inr w0" and "cap \<noteq> NaN"
  shows "accounted a w0"
  using assms
  by (cases cap)
    (auto simp: init_def Varasto_init_def accounted_def items_total_def positive_items_def
      finite_items_def within_capacity_def split: if_splits)

section \<open>The properties of the specification\<close>

text \<open>
  C1 (as amended). Take a warehouse constructed with a capacity that is not NaN and a
  finite start balance \<open>a\<close>, and any calls of \<^verbatim>\<open>add_item\<close> and \<^verbatim>\<open>remove_item\<close> of which
  each either fails or performs only exact additions and subtractions. In the state after
  them every stored quantity is finite and strictly positive, \<open>0 \<le> saldo \<le> tilavuus\<close>,
  and the quantities add up to \<open>saldo - a\<close>: to \<open>saldo\<close> when the start balance is the
  default \<open>0\<close>.
\<close>

theorem C1_exact_run_consistent:
  assumes "init nm cap (Finite a) = Inr w0" and "cap \<noteq> NaN" and "exact_run w0 w"
  shows "positive_items w \<and> fl_le (Finite 0) (saldo w) \<and> fl_le (saldo w) (tilavuus w)
         \<and> finite_items w \<and> saldo w = Finite (items_total (items w) + a)"
proof -
  have "accounted a w0" using assms(1,2) by (rule init_accounted)
  with assms(3) have acc: "accounted a w" by (rule exact_run_accounted)
  then obtain s where "saldo w = Finite s"
    by (cases "saldo w") (simp_all add: accounted_def)
  then show ?thesis using acc by (simp add: accounted_def within_capacity_def)
qed

theorem C1_witness:
  "init ''hall'' (Finite 100) (Finite 0) = Inr empty_hall \<and> Finite 100 \<noteq> NaN
   \<and> exact_add_item empty_hall ''bolt'' (Finite 30)
   \<and> exact_run empty_hall bolt_hall
   \<and> positive_items bolt_hall \<and> fl_le (Finite 0) (saldo bolt_hall)
   \<and> fl_le (saldo bolt_hall) (tilavuus bolt_hall) \<and> finite_items bolt_hall
   \<and> saldo bolt_hall = Finite (items_total (items bolt_hall) + 0)"
proof -
  have i: "init ''hall'' (Finite 100) (Finite 0) = Inr empty_hall" by (rule trace_1)
  have c: "Finite 100 \<noteq> NaN" by simp
  have e: "exact_add_item empty_hall ''bolt'' (Finite 30)"
    by (simp add: exact_add_item_def empty_hall_def is_double_def rnd_whole)
  have r: "exact_run empty_hall bolt_hall"
    using exact_after_add [OF exact_start, of empty_hall "''bolt''" "Finite 30"] e
    by (simp add: trace_2)
  show ?thesis using i c e r C1_exact_run_consistent [OF i c r] by blast
qed

text \<open>
  Four new warehouses. With a start balance of \<open>30\<close> the items add up to \<open>0\<close> and the
  balance is \<open>30\<close>. After \<^verbatim>\<open>add_item("bolt", nan)\<close> the stored quantity and the balance
  are NaN: neither is positive or at least \<open>0\<close>. With capacity \<open>3 \<cdot> 2\<^sup>5\<^sup>2 + 2\<close>, adding
  \<open>3\<close> and then the free space rounds the balance to two more than the capacity. With
  capacity \<open>2\<^sup>5\<^sup>4\<close>, adding \<open>2\<^sup>5\<^sup>3\<close>, adding \<open>1\<close> (lost in the balance by rounding) and
  removing the \<open>2\<^sup>5\<^sup>3\<close> leaves one unit in the items and a balance of \<open>0\<close>.
\<close>

theorem C1_counterexample:
  "init ''hall'' (Finite 100) (Finite 30) = Inr prefilled_hall
   \<and> reachable_from prefilled_hall prefilled_hall
   \<and> items_total (items prefilled_hall) = 0 \<and> saldo prefilled_hall = Finite 30
   \<and> init ''hall'' (Finite 100) (Finite 0) = Inr empty_hall
   \<and> reachable_from empty_hall nan_hall
   \<and> \<not> positive_items nan_hall \<and> \<not> fl_le (Finite 0) (saldo nan_hall)
   \<and> init ''hall'' (Finite 13510798882111490) (Finite 0)
       = Inr (odd_hall\<lparr>saldo := Finite 0, items := fmempty\<rparr>)
   \<and> reachable_from (odd_hall\<lparr>saldo := Finite 0, items := fmempty\<rparr>) overfull_hall
   \<and> \<not> fl_le (saldo overfull_hall) (tilavuus overfull_hall)
   \<and> init ''hall'' (Finite 18014398509481984) (Finite 0) = Inr vast_hall
   \<and> reachable_from vast_hall drift_hall
   \<and> items_total (items drift_hall) = 1 \<and> saldo drift_hall = Finite 0"
proof -
  have p: "init ''hall'' (Finite 100) (Finite 30) = Inr prefilled_hall"
    by (simp add: call_defs prefilled_hall_def)
  have n: "reachable_from empty_hall nan_hall"
    using after_add [OF start, of empty_hall "''bolt''" NaN] by (simp add: trace_4)
  have o1: "reachable_from (odd_hall\<lparr>saldo := Finite 0, items := fmempty\<rparr>) odd_hall"
    using after_add [OF start, of "odd_hall\<lparr>saldo := Finite 0, items := fmempty\<rparr>" "''bolt''"
        "Finite 3"]
    by (simp add: trace_16)
  have o: "reachable_from (odd_hall\<lparr>saldo := Finite 0, items := fmempty\<rparr>) overfull_hall"
    using after_add [OF o1, of "''nail''" "Finite 13510798882111488"] by (simp add: trace_18)
  have d1: "reachable_from vast_hall big_hall"
    using after_add [OF start, of vast_hall "''bolt''" "Finite 9007199254740992"]
    by (simp add: trace_9)
  have d2: "reachable_from vast_hall
              (big_hall\<lparr>items := fmupd ''nail'' (Finite 1) (items big_hall)\<rparr>)"
    using after_add [OF d1, of "''nail''" "Finite 1"] by (simp add: trace_12)
  have d: "reachable_from vast_hall drift_hall"
    using after_remove [OF d2, of "''bolt''" None] by (simp add: trace_13)
  show ?thesis
    by (simp add: p start trace_1 n trace_15 o trace_8 d)
      (simp add: prefilled_hall_def nan_hall_def overfull_hall_def drift_hall_def
        items_total_def positive_items_def)
qed

text \<open>
  C2. Whenever \<^verbatim>\<open>add_item\<close> or \<^verbatim>\<open>remove_item\<close> returns a failure, the object afterwards
  is the object before: the same \<open>items\<close>, \<open>saldo\<close>, \<open>tilavuus\<close> and \<open>name\<close>.
\<close>

theorem C2_failure_leaves_state:
  "(isl (fst (add_item w n q)) \<longrightarrow> snd (add_item w n q) = w)
   \<and> (isl (fst (remove_item w n oq)) \<longrightarrow> snd (remove_item w n oq) = w)"
proof
  show "isl (fst (add_item w n q)) \<longrightarrow> snd (add_item w n q) = w"
    by (cases "fl_le q (Finite 0) \<or> fl_lt (paljonko_mahtuu w) q")
      (auto simp: add_item_rejected add_item_ok)
  show "isl (fst (remove_item w n oq)) \<longrightarrow> snd (remove_item w n oq) = w"
    by (simp add: remove_item_rejected)
qed

theorem C2_witness:
  "isl (fst (add_item bolt_hall ''bolt'' (Finite 80)))
   \<and> snd (add_item bolt_hall ''bolt'' (Finite 80)) = bolt_hall
   \<and> isl (fst (remove_item bolt_hall ''bolt'' (Some (Finite 31))))
   \<and> snd (remove_item bolt_hall ''bolt'' (Some (Finite 31))) = bolt_hall"
proof -
  have a: "isl (fst (add_item bolt_hall ''bolt'' (Finite 80)))"
    by (simp add: add_item_def paljonko_mahtuu_def fl_sub_Finite rnd_whole bolt_hall_def)
  have r: "isl (fst (remove_item bolt_hall ''bolt'' (Some (Finite 31))))"
    by (simp add: remove_item_def bolt_hall_def)
  show ?thesis
    using a r C2_failure_leaves_state [of bolt_hall "''bolt''" "Finite 80" "Some (Finite 31)"]
    by simp
qed

text \<open>
  C3 (as amended). Let the balance be a float that is not negative, let the item be absent
  or hold a strictly positive float, and let \<open>q\<close> be finite with \<open>0 < q \<le>\<close> free space. If
  the additions \<open>saldo + q\<close> and, for an item that is present, \<open>items[X] + q\<close> are exact,
  then \<^verbatim>\<open>add_item(X, q)\<close> succeeds and \<^verbatim>\<open>remove_item(X, q)\<close> after it succeeds and gives
  back the state before the two calls.
\<close>

theorem C3_add_then_remove:
  assumes "saldo w = Finite s" and "0 \<le> s" and "is_double s"
    and "0 < q" and "fl_le (Finite q) (paljonko_mahtuu w)"
    and "is_double (s + q)"
    and "(case fmlookup (items w) n of
            None \<Rightarrow> True
          | Some cur \<Rightarrow> fl_lt (Finite 0) cur \<and> is_double (value_of cur)
                         \<and> adds_exactly cur (Finite q))"
  shows "fst (add_item w n (Finite q)) = Inr ()
         \<and> remove_item (snd (add_item w n (Finite q))) n (Some (Finite q)) = (Inr (), w)"
proof -
  have ok: "\<not> fl_le (Finite q) (Finite 0)" "\<not> fl_lt (paljonko_mahtuu w) (Finite q)"
    using assms(4,5) by (simp_all add: fl_le_not_lt)
  have sq: "fl_add (saldo w) (Finite q) = Finite (s + q)"
    using assms(1,6) by (simp add: is_double_def)
  have rs: "rnd s = Finite s"
    using assms(3) by (simp add: is_double_def)
  have same: "w\<lparr>saldo := Finite s\<rparr> = w"
    using assms(1) by (cases w) simp
  show ?thesis
  proof (cases "fmlookup (items w) n")
    case None
    let ?w1 = "w\<lparr>saldo := Finite (s + q), items := fmupd n (Finite q) (items w)\<rparr>"
    have a: "add_item w n (Finite q) = (Inr (), ?w1)"
      using None by (simp add: add_item_ok [OF ok] sq)
    have l: "fmlookup (items ?w1) n = Some (Finite q)" by simp
    have g: "\<not> fl_lt (Finite q) (Finite q)" by simp
    have "remove_item ?w1 n (Some (Finite q)) = (Inr (), w)"
      using None assms(2,4)
      by (simp add: remove_item_ok [OF l ok(1) g] fl_sub_Finite rs rnd_0 same
          fmdrop_fmupd_same fmdrop_idle' fmdom'_notI)
    then show ?thesis by (simp add: a)
  next
    case (Some cur)
    then have h: "fl_lt (Finite 0) cur" "is_double (value_of cur)" "adds_exactly cur (Finite q)"
      using assms(7) by simp_all
    then obtain c where c: "cur = Finite c" by (cases cur) simp_all
    have pos: "0 < c" and dc: "is_double c" and dcq: "is_double (c + q)"
      using h by (simp_all add: c)
    let ?w1 = "w\<lparr>saldo := Finite (s + q), items := fmupd n (Finite (c + q)) (items w)\<rparr>"
    have a: "add_item w n (Finite q) = (Inr (), ?w1)"
      using Some dcq by (simp add: add_item_ok [OF ok] sq c is_double_def)
    have l: "fmlookup (items ?w1) n = Some (Finite (c + q))" by simp
    have g: "\<not> fl_lt (Finite (c + q)) (Finite q)" using pos by simp
    have "remove_item ?w1 n (Some (Finite q)) = (Inr (), w)"
      using Some assms(2,4) pos dc
      by (simp add: remove_item_ok [OF l ok(1) g] fl_sub_Finite rs same is_double_def c
          fmupd_same)
    then show ?thesis by (simp add: a)
  qed
qed

theorem C3_witness:
  "saldo bolt_hall = Finite 30 \<and> (0::real) \<le> 30 \<and> is_double 30 \<and> (0::real) < 70
   \<and> fl_le (Finite 70) (paljonko_mahtuu bolt_hall) \<and> is_double (30 + 70)
   \<and> fmlookup (items bolt_hall) ''bolt'' = Some (Finite 30)
   \<and> fl_lt (Finite 0) (Finite 30) \<and> adds_exactly (Finite 30) (Finite 70)
   \<and> fst (add_item bolt_hall ''bolt'' (Finite 70)) = Inr ()
   \<and> remove_item (snd (add_item bolt_hall ''bolt'' (Finite 70))) ''bolt'' (Some (Finite 70))
       = (Inr (), bolt_hall)"
proof -
  have s: "saldo bolt_hall = Finite 30" by (simp add: bolt_hall_def)
  have s0: "(0::real) \<le> 30" and q: "(0::real) < 70" by simp_all
  have d: "is_double 30" "is_double (30 + 70)" by (simp_all add: is_double_def rnd_whole)
  have f: "fl_le (Finite 70) (paljonko_mahtuu bolt_hall)"
    by (simp add: paljonko_mahtuu_def fl_sub_Finite rnd_whole bolt_hall_def)
  have l: "fmlookup (items bolt_hall) ''bolt'' = Some (Finite 30)" by (simp add: bolt_hall_def)
  have c: "(case fmlookup (items bolt_hall) ''bolt'' of
              None \<Rightarrow> True
            | Some cur \<Rightarrow> fl_lt (Finite 0) cur \<and> is_double (value_of cur)
                           \<and> adds_exactly cur (Finite 70))"
    by (simp add: l is_double_def rnd_whole)
  show ?thesis
    using s d f l C3_add_then_remove [OF s s0 d(1) q f d(2) c]
    by (simp add: is_double_def rnd_whole)
qed

text \<open>
  In a warehouse of capacity \<open>2\<^sup>5\<^sup>4\<close> that holds \<open>2\<^sup>5\<^sup>3\<close> bolts, adding one bolt changes
  nothing, since \<open>2\<^sup>5\<^sup>3 + 1\<close> rounds to \<open>2\<^sup>5\<^sup>3\<close>; removing one bolt then leaves
  \<open>2\<^sup>5\<^sup>3 - 1\<close>.
\<close>

theorem C3_counterexample:
  "init ''hall'' (Finite 18014398509481984) (Finite 0) = Inr vast_hall
   \<and> add_item vast_hall ''bolt'' (Finite 9007199254740992) = (Inr (), big_hall)
   \<and> fl_lt (Finite 0) (Finite 1) \<and> fl_le (Finite 1) (paljonko_mahtuu big_hall)
   \<and> add_item big_hall ''bolt'' (Finite 1) = (Inr (), big_hall)
   \<and> fmlookup (items (snd (remove_item (snd (add_item big_hall ''bolt'' (Finite 1))) ''bolt''
        (Some (Finite 1))))) ''bolt'' = Some (Finite 9007199254740991)
   \<and> saldo (snd (remove_item (snd (add_item big_hall ''bolt'' (Finite 1))) ''bolt''
        (Some (Finite 1)))) = Finite 9007199254740991
   \<and> fmlookup (items big_hall) ''bolt'' = Some (Finite 9007199254740992)
   \<and> saldo big_hall = Finite 9007199254740992"
proof -
  have b: "paljonko_mahtuu big_hall = Finite 9007199254740992"
    by (simp add: paljonko_mahtuu_def fl_sub_Finite rnd_whole big_hall_def)
  show ?thesis by (simp add: trace_8 trace_9 trace_10 trace_11 b) (simp add: big_hall_def)
qed

text \<open>
  C4 (as amended). When capacity and balance are finite, the balance is below the
  capacity, and the free space \<open>tilavuus - saldo\<close> is computed exactly, \<^verbatim>\<open>add_item\<close> of
  exactly the free space succeeds and leaves no free space. In every state, \<^verbatim>\<open>add_item\<close>
  of the float \<open>free + 1\<close> fails with \<open>CapacityExceeded\<close> and leaves the state as it was,
  provided that float is positive and greater than the free space.
\<close>

theorem C4_fill_exactly:
  "(tilavuus w = Finite t \<and> saldo w = Finite s \<and> s < t
      \<and> is_double (t - s) \<and> is_double t \<longrightarrow>
      fst (add_item w n (paljonko_mahtuu w)) = Inr ()
      \<and> paljonko_mahtuu (snd (add_item w n (paljonko_mahtuu w))) = Finite 0)
   \<and> (fl_lt (Finite 0) (fl_add (paljonko_mahtuu w) (Finite 1))
      \<and> fl_lt (paljonko_mahtuu w) (fl_add (paljonko_mahtuu w) (Finite 1)) \<longrightarrow>
      add_item w n (fl_add (paljonko_mahtuu w) (Finite 1)) = (Inl CapacityExceeded, w))"
proof (intro conjI impI)
  assume h: "tilavuus w = Finite t \<and> saldo w = Finite s \<and> s < t
      \<and> is_double (t - s) \<and> is_double t"
  then have free: "paljonko_mahtuu w = Finite (t - s)"
    by (simp add: paljonko_mahtuu_def fl_sub_Finite is_double_def)
  have ok: "\<not> fl_le (Finite (t - s)) (Finite 0)" "\<not> fl_lt (paljonko_mahtuu w) (Finite (t - s))"
    using h by (simp_all add: free)
  show "fst (add_item w n (paljonko_mahtuu w)) = Inr ()"
    unfolding free by (simp add: add_item_ok [OF ok])
  show "paljonko_mahtuu (snd (add_item w n (paljonko_mahtuu w))) = Finite 0"
    unfolding free using h
    by (simp add: add_item_ok [OF ok] paljonko_mahtuu_def fl_sub_Finite is_double_def rnd_0)
next
  assume h: "fl_lt (Finite 0) (fl_add (paljonko_mahtuu w) (Finite 1))
      \<and> fl_lt (paljonko_mahtuu w) (fl_add (paljonko_mahtuu w) (Finite 1))"
  then have "\<not> fl_le (fl_add (paljonko_mahtuu w) (Finite 1)) (Finite 0)"
    by (simp add: fl_lt_not_le)
  then show "add_item w n (fl_add (paljonko_mahtuu w) (Finite 1)) = (Inl CapacityExceeded, w)"
    using h by (simp add: add_item_def)
qed

theorem C4_witness:
  "tilavuus bolt_hall = Finite 100 \<and> saldo bolt_hall = Finite 30 \<and> (30::real) < 100
   \<and> is_double (100 - 30) \<and> is_double 100
   \<and> paljonko_mahtuu bolt_hall = Finite 70
   \<and> fl_add (paljonko_mahtuu bolt_hall) (Finite 1) = Finite 71
   \<and> fl_lt (Finite 0) (Finite 71) \<and> fl_lt (Finite 70) (Finite 71)
   \<and> fst (add_item bolt_hall ''nail'' (Finite 70)) = Inr ()
   \<and> paljonko_mahtuu (snd (add_item bolt_hall ''nail'' (Finite 70))) = Finite 0
   \<and> add_item bolt_hall ''nail'' (Finite 71) = (Inl CapacityExceeded, bolt_hall)"
proof -
  have f: "paljonko_mahtuu bolt_hall = Finite 70"
    by (simp add: paljonko_mahtuu_def fl_sub_Finite rnd_whole bolt_hall_def)
  have t: "tilavuus bolt_hall = Finite 100" "saldo bolt_hall = Finite 30"
    by (simp_all add: bolt_hall_def)
  have d: "is_double (100 - 30)" "is_double 100"
    by (simp_all add: is_double_def rnd_whole)
  show ?thesis
    using d C4_fill_exactly [of bolt_hall 100 30 "''nail''"] by (simp add: f t rnd_whole)
qed

text \<open>
  In a full warehouse the free space is \<open>0\<close>, and a quantity of \<open>0\<close> is turned down by the
  first guard of \<^verbatim>\<open>add_item\<close>. With capacity \<open>3 \<cdot> 2\<^sup>5\<^sup>2 + 2\<close> and balance \<open>3\<close> the free
  space is rounded up, and after adding it the free space is \<open>-2\<close>. With a free space of
  \<open>2\<^sup>5\<^sup>3\<close>, one unit more is the same float, and adding it succeeds.
\<close>

theorem C4_counterexample:
  "init ''hall'' (Finite 100) (Finite 0) = Inr empty_hall
   \<and> add_item empty_hall ''bolt'' (Finite 100) = (Inr (), full_hall)
   \<and> paljonko_mahtuu full_hall = Finite 0
   \<and> add_item full_hall ''nail'' (paljonko_mahtuu full_hall) = (Inl InvalidArgument, full_hall)
   \<and> paljonko_mahtuu odd_hall = Finite 13510798882111488
   \<and> add_item odd_hall ''nail'' (paljonko_mahtuu odd_hall) = (Inr (), overfull_hall)
   \<and> paljonko_mahtuu overfull_hall = Finite (- 2)
   \<and> paljonko_mahtuu big_hall = Finite 9007199254740992
   \<and> fl_add (paljonko_mahtuu big_hall) (Finite 1) = paljonko_mahtuu big_hall
   \<and> fst (add_item big_hall ''nail'' (fl_add (paljonko_mahtuu big_hall) (Finite 1))) = Inr ()"
proof -
  have f: "paljonko_mahtuu full_hall = Finite 0"
    by (simp add: paljonko_mahtuu_def fl_sub_Finite rnd_0 full_hall_def)
  have r: "add_item full_hall ''nail'' (Finite 0) = (Inl InvalidArgument, full_hall)"
    by (simp add: add_item_def)
  have b: "paljonko_mahtuu big_hall = Finite 9007199254740992"
    by (simp add: paljonko_mahtuu_def fl_sub_Finite rnd_whole big_hall_def)
  have a: "fl_add (Finite 9007199254740992) (Finite 1) = Finite 9007199254740992"
    by (simp add: rnd_9007199254740993)
  have s: "fst (add_item big_hall ''nail'' (Finite 9007199254740992)) = Inr ()"
    by (simp add: add_item_def b) (simp add: Let_def split: option.splits)
  show ?thesis
    using s by (simp add: trace_1 trace_3 f r trace_17 trace_18 trace_19 b rnd_9007199254740993)
qed

text \<open>
  C5 (as amended). For an item that holds a finite, strictly positive quantity \<open>c\<close>,
  \<^verbatim>\<open>remove_item\<close> of exactly \<open>c\<close> succeeds and deletes its key and no other; and
  \<^verbatim>\<open>remove_item\<close> of the float \<open>c + 1\<close> fails with \<open>InsufficientStock\<close> and leaves the
  state as it was, provided that float is greater than \<open>c\<close>.
\<close>

theorem C5_remove_exactly:
  assumes "fmlookup (items w) n = Some (Finite c)" and "0 < c"
  shows "fst (remove_item w n (Some (Finite c))) = Inr ()
         \<and> items (snd (remove_item w n (Some (Finite c)))) = fmdrop n (items w)
         \<and> (fl_lt (Finite c) (fl_add (Finite c) (Finite 1)) \<longrightarrow>
              remove_item w n (Some (fl_add (Finite c) (Finite 1))) = (Inl InsufficientStock, w))"
proof (intro conjI impI)
  have ok: "\<not> fl_le (Finite c) (Finite 0)" "\<not> fl_lt (Finite c) (Finite c)"
    using assms(2) by simp_all
  show "fst (remove_item w n (Some (Finite c))) = Inr ()"
    by (simp add: remove_item_ok [OF assms(1) ok])
  show "items (snd (remove_item w n (Some (Finite c)))) = fmdrop n (items w)"
    by (simp add: remove_item_ok [OF assms(1) ok] fl_sub_Finite rnd_0)
next
  assume more: "fl_lt (Finite c) (fl_add (Finite c) (Finite 1))"
  then have "\<not> fl_le (fl_add (Finite c) (Finite 1)) (Finite 0)"
    using assms(2) by (cases "fl_add (Finite c) (Finite 1)") simp_all
  then show "remove_item w n (Some (fl_add (Finite c) (Finite 1))) = (Inl InsufficientStock, w)"
    using assms(1) more by (simp add: remove_item_def)
qed

theorem C5_witness:
  "fmlookup (items bolt_hall) ''bolt'' = Some (Finite 30) \<and> (0::real) < 30
   \<and> fl_lt (Finite 30) (fl_add (Finite 30) (Finite 1))
   \<and> fst (remove_item bolt_hall ''bolt'' (Some (Finite 30))) = Inr ()
   \<and> items (snd (remove_item bolt_hall ''bolt'' (Some (Finite 30)))) = fmempty
   \<and> remove_item bolt_hall ''bolt'' (Some (Finite 31)) = (Inl InsufficientStock, bolt_hall)"
proof -
  have l: "fmlookup (items bolt_hall) ''bolt'' = Some (Finite 30)" by (simp add: bolt_hall_def)
  have p: "(0::real) < 30" by simp
  have d: "fmdrop ''bolt'' (items bolt_hall) = fmempty"
    by (simp add: bolt_hall_def fmdrop_fmupd_same)
  show ?thesis using l C5_remove_exactly [OF l p] by (simp add: d rnd_whole)
qed

text \<open>
  A warehouse of infinite capacity takes an infinite quantity; removing exactly that
  quantity leaves the key in place, with a NaN. A stored \<open>2\<^sup>5\<^sup>3\<close> and one unit more are
  the same float, and removing it succeeds.
\<close>

theorem C5_counterexample:
  "init ''hall'' PInf (Finite 0) = Inr boundless_hall
   \<and> add_item boundless_hall ''bolt'' PInf = (Inr (), inf_hall)
   \<and> fmlookup (items inf_hall) ''bolt'' = Some PInf
   \<and> fmlookup (items (snd (remove_item inf_hall ''bolt'' (Some PInf)))) ''bolt'' = Some NaN
   \<and> init ''hall'' (Finite 18014398509481984) (Finite 0) = Inr vast_hall
   \<and> add_item vast_hall ''bolt'' (Finite 9007199254740992) = (Inr (), big_hall)
   \<and> fmlookup (items big_hall) ''bolt'' = Some (Finite 9007199254740992)
   \<and> fl_add (Finite 9007199254740992) (Finite 1) = Finite 9007199254740992
   \<and> fst (remove_item big_hall ''bolt'' (Some (fl_add (Finite 9007199254740992) (Finite 1))))
       = Inr ()"
proof -
  have a: "fl_add (Finite 9007199254740992) (Finite 1) = Finite 9007199254740992"
    by (simp add: rnd_9007199254740993)
  have b: "fst (remove_item big_hall ''bolt'' (Some (Finite 9007199254740992))) = Inr ()"
    by (simp add: call_defs big_hall_def)
  show ?thesis
    using a b
    by (simp add: trace_5 trace_6 trace_7 trace_8 trace_9 rnd_9007199254740993) (simp add: inf_hall_def big_hall_def)
qed

text \<open>
  C6 (as amended). For an item that holds a finite, strictly positive quantity \<open>c\<close>,
  \<^verbatim>\<open>remove_item\<close> without a quantity succeeds and deletes its key and no other. If \<open>c\<close>
  is not above the balance, the balance becomes the float \<open>saldo - c\<close>, which is exactly
  \<open>saldo - c\<close> when that difference is not rounded.
\<close>

theorem C6_remove_all:
  assumes "fmlookup (items w) n = Some (Finite c)" and "0 < c"
  shows "fst (remove_item w n None) = Inr ()
         \<and> items (snd (remove_item w n None)) = fmdrop n (items w)
         \<and> (\<not> fl_lt (saldo w) (Finite c) \<longrightarrow>
              saldo (snd (remove_item w n None)) = fl_sub (saldo w) (Finite c))
         \<and> (saldo w = Finite s \<and> c \<le> s \<and> is_double (s - c) \<longrightarrow>
              saldo (snd (remove_item w n None)) = Finite (s - c))"
proof -
  have ok: "\<not> fl_le (Finite c) (Finite 0)" "\<not> fl_lt (Finite c) (Finite c)"
    using assms(2) by simp_all
  have r: "remove_item w n None = remove_item w n (Some (Finite c))"
    using assms(1) by (rule remove_item_all)
  show ?thesis
    unfolding r remove_item_ok [OF assms(1) ok]
    by (auto simp: fl_sub_Finite rnd_0 is_double_def)
qed

theorem C6_witness:
  "fmlookup (items bolt_hall) ''bolt'' = Some (Finite 30) \<and> (0::real) < 30
   \<and> \<not> fl_lt (saldo bolt_hall) (Finite 30)
   \<and> saldo bolt_hall = Finite 30 \<and> (30::real) \<le> 30 \<and> is_double (30 - 30)
   \<and> fst (remove_item bolt_hall ''bolt'' None) = Inr ()
   \<and> items (snd (remove_item bolt_hall ''bolt'' None)) = fmempty
   \<and> saldo (snd (remove_item bolt_hall ''bolt'' None)) = Finite 0"
proof -
  have l: "fmlookup (items bolt_hall) ''bolt'' = Some (Finite 30)" by (simp add: bolt_hall_def)
  have p: "(0::real) < 30" by simp
  have s: "saldo bolt_hall = Finite 30" by (simp add: bolt_hall_def)
  have d: "fmdrop ''bolt'' (items bolt_hall) = fmempty"
    by (simp add: bolt_hall_def fmdrop_fmupd_same)
  have e: "is_double (30 - 30)" by (simp add: is_double_def rnd_0)
  show ?thesis
    using l e C6_remove_all [OF l p, of 30] by (simp add: s d fl_sub_Finite rnd_0)
qed

text \<open>
  A stored infinity stays in place as a NaN. In the warehouse whose balance lost a unit
  by rounding, one nail is stored and the balance is \<open>0\<close>; removing the nail leaves the
  balance at \<open>0\<close>.
\<close>

theorem C6_counterexample:
  "init ''hall'' PInf (Finite 0) = Inr boundless_hall
   \<and> add_item boundless_hall ''bolt'' PInf = (Inr (), inf_hall)
   \<and> fmlookup (items inf_hall) ''bolt'' = Some PInf
   \<and> fmlookup (items (snd (remove_item inf_hall ''bolt'' None))) ''bolt'' = Some NaN
   \<and> saldo (snd (remove_item inf_hall ''bolt'' None)) = NaN
   \<and> init ''hall'' (Finite 18014398509481984) (Finite 0) = Inr vast_hall
   \<and> add_item vast_hall ''bolt'' (Finite 9007199254740992) = (Inr (), big_hall)
   \<and> snd (remove_item (snd (add_item big_hall ''nail'' (Finite 1))) ''bolt'' None) = drift_hall
   \<and> fmlookup (items drift_hall) ''nail'' = Some (Finite 1)
   \<and> saldo drift_hall = Finite 0
   \<and> saldo (snd (remove_item drift_hall ''nail'' None)) = Finite 0"
proof -
  have a: "remove_item inf_hall ''bolt'' None = remove_item inf_hall ''bolt'' (Some PInf)"
    by (rule remove_item_all) (simp add: inf_hall_def)
  show ?thesis
    by (simp add: trace_5 trace_6 a trace_7 trace_8 trace_9 trace_12 trace_13 trace_14) (simp add: inf_hall_def drift_hall_def)
qed

text \<open>
  C7. For an item name that is not in \<open>items\<close>, \<^verbatim>\<open>remove_item\<close> fails with \<open>NotFound\<close>
  and leaves the state as it was, whatever the quantity argument: absent, zero, negative,
  positive or NaN.
\<close>

theorem C7_absent_item:
  assumes "fmlookup (items w) n = None"
  shows "remove_item w n oq = (Inl NotFound, w)"
  using assms by (simp add: remove_item_def)

theorem C7_witness:
  "fmlookup (items bolt_hall) ''nail'' = None
   \<and> remove_item bolt_hall ''nail'' None = (Inl NotFound, bolt_hall)
   \<and> remove_item bolt_hall ''nail'' (Some (Finite 0)) = (Inl NotFound, bolt_hall)
   \<and> remove_item bolt_hall ''nail'' (Some (Finite (- 5))) = (Inl NotFound, bolt_hall)
   \<and> remove_item bolt_hall ''nail'' (Some (Finite 5)) = (Inl NotFound, bolt_hall)
   \<and> remove_item bolt_hall ''nail'' (Some NaN) = (Inl NotFound, bolt_hall)"
proof -
  have l: "fmlookup (items bolt_hall) ''nail'' = None" by (simp add: bolt_hall_def)
  show ?thesis
    using l C7_absent_item [OF l, of None] C7_absent_item [OF l, of "Some (Finite 0)"]
      C7_absent_item [OF l, of "Some (Finite (- 5))"] C7_absent_item [OF l, of "Some (Finite 5)"]
      C7_absent_item [OF l, of "Some NaN"]
    by simp
qed

text \<open>
  C8. \<^verbatim>\<open>get_space_left_percent\<close> returns \<open>0\<close> when \<open>tilavuus\<close> equals \<open>0\<close> and the free space
  divided by \<open>tilavuus\<close>, times \<open>100\<close>, otherwise; it never divides by zero, and the
  object is left as it was.
\<close>

theorem C8_space_left_percent:
  "fst (get_space_left_percent w) =
     Some (if fl_eq (tilavuus w) (Finite 0) then Finite 0
           else fl_mul (fl_quot (paljonko_mahtuu w) (tilavuus w)) (Finite 100))
   \<and> paljonko_mahtuu w = fl_sub (tilavuus w) (saldo w)
   \<and> snd (get_space_left_percent w) = w"
  by (auto simp: get_space_left_percent_def paljonko_mahtuu_def fl_div_def)

theorem C8_witness:
  "fst (get_space_left_percent bolt_hall) =
     Some (fl_mul (fl_quot (Finite 70) (Finite 100)) (Finite 100))
   \<and> snd (get_space_left_percent bolt_hall) = bolt_hall
   \<and> fst (get_space_left_percent (bolt_hall\<lparr>tilavuus := Finite 0\<rparr>)) = Some (Finite 0)"
  using C8_space_left_percent [of bolt_hall]
    C8_space_left_percent [of "bolt_hall\<lparr>tilavuus := Finite 0\<rparr>"]
  by (simp add: bolt_hall_def paljonko_mahtuu_def fl_sub_Finite rnd_whole)

text \<open>
  C9. In a state whose stored quantities are positive, \<^verbatim>\<open>remove_item\<close> without a quantity
  succeeds for every item that is present.
\<close>

theorem C9_remove_all_succeeds:
  assumes "positive_items w" and "fmlookup (items w) n = Some cur"
  shows "fst (remove_item w n None) = Inr ()"
proof -
  have "fl_lt (Finite 0) cur" using assms by (rule positive_itemsD)
  then have "\<not> fl_le cur (Finite 0)" by (rule fl_lt_not_le)
  then show ?thesis
    using assms(2) by (simp add: remove_item_def Let_def fl_lt_irrefl)
qed

theorem C9_witness:
  "positive_items bolt_hall \<and> fmlookup (items bolt_hall) ''bolt'' = Some (Finite 30)
   \<and> fst (remove_item bolt_hall ''bolt'' None) = Inr ()"
proof -
  have p: "positive_items bolt_hall" by (simp add: positive_items_def bolt_hall_def)
  have l: "fmlookup (items bolt_hall) ''bolt'' = Some (Finite 30)" by (simp add: bolt_hall_def)
  show ?thesis using p l C9_remove_all_succeeds [OF p l] by simp
qed

text \<open>
  C10. \<^verbatim>\<open>add_item\<close> fails exactly when the quantity is at most \<open>0\<close> or exceeds the free
  space, whatever the item name. With the empty string as the name and a quantity that
  passes both guards it succeeds, and the empty-string key then holds the quantity, added
  to what the key held before if it was present.
\<close>

theorem C10_add_item_fails_iff:
  "(isl (fst (add_item w n q)) \<longleftrightarrow> fl_le q (Finite 0) \<or> fl_lt (paljonko_mahtuu w) q)
   \<and> (\<not> fl_le q (Finite 0) \<and> \<not> fl_lt (paljonko_mahtuu w) q \<longrightarrow>
        fst (add_item w [] q) = Inr ()
        \<and> fmlookup (items (snd (add_item w [] q))) [] =
            Some (case fmlookup (items w) [] of None \<Rightarrow> q | Some cur \<Rightarrow> fl_add cur q))"
proof (intro conjI impI)
  show "isl (fst (add_item w n q)) \<longleftrightarrow> fl_le q (Finite 0) \<or> fl_lt (paljonko_mahtuu w) q"
    by (cases "fl_le q (Finite 0) \<or> fl_lt (paljonko_mahtuu w) q")
      (auto simp: add_item_rejected add_item_ok)
next
  assume q: "\<not> fl_le q (Finite 0) \<and> \<not> fl_lt (paljonko_mahtuu w) q"
  then have ok: "\<not> fl_le q (Finite 0)" "\<not> fl_lt (paljonko_mahtuu w) q" by simp_all
  show "fst (add_item w [] q) = Inr ()" by (simp add: add_item_ok [OF ok])
  show "fmlookup (items (snd (add_item w [] q))) [] =
          Some (case fmlookup (items w) [] of None \<Rightarrow> q | Some cur \<Rightarrow> fl_add cur q)"
    by (simp add: add_item_ok [OF ok] split: option.splits)
qed

theorem C10_witness:
  "\<not> fl_le (Finite 5) (Finite 0) \<and> \<not> fl_lt (paljonko_mahtuu bolt_hall) (Finite 5)
   \<and> \<not> isl (fst (add_item bolt_hall [] (Finite 5)))
   \<and> fst (add_item bolt_hall [] (Finite 5)) = Inr ()
   \<and> fmlookup (items (snd (add_item bolt_hall [] (Finite 5)))) [] = Some (Finite 5)"
proof -
  have f: "paljonko_mahtuu bolt_hall = Finite 70"
    by (simp add: paljonko_mahtuu_def fl_sub_Finite rnd_whole bolt_hall_def)
  have l: "fmlookup (items bolt_hall) [] = None" by (simp add: bolt_hall_def)
  show ?thesis using C10_add_item_fails_iff [of bolt_hall "[]" "Finite 5"] by (simp add: f l)
qed

end
